theory Spec2Isabelle
  imports Main "HOL-Library.Multiset" "HOL-Library.List_Lexorder"
begin

section \<open>Age of War: units, battles and the arrangement search\<close>

text \<open>
  A shallow embedding of \<^verbatim>\<open>age_of_war.py\<close>. Python integers are \<^typ>\<open>int\<close>,
  a raised \<^verbatim>\<open>ValueError\<close> is the left summand of a sum type, objects are records
  of their attributes, and the \<^verbatim>\<open>for\<close> loops are recursion over lists.
\<close>

subsection \<open>Enumerations\<close>

datatype UnitType = MILITIA | SPEARMEN | LIGHT_CAVALRY | HEAVY_CAVALRY | FOOT_ARCHER | CAVALRY_ARCHER

datatype BattleOutcome = WIN | DRAW | LOSS

text \<open>The concrete subclasses of \<^verbatim>\<open>Unit\<close>; an object's class selects its methods.\<close>

datatype UnitClass = Militia | Spearmen | LightCavalry | HeavyCavalry | FootArcher | CavalryArcher

datatype error = ValueError string

subsection \<open>Units\<close>

text \<open>\<^verbatim>\<open>_get_unit_type\<close>, one equation per subclass.\<close>

fun get_unit_type :: "UnitClass \<Rightarrow> UnitType" where
  "get_unit_type Militia = MILITIA"
| "get_unit_type Spearmen = SPEARMEN"
| "get_unit_type LightCavalry = LIGHT_CAVALRY"
| "get_unit_type HeavyCavalry = HEAVY_CAVALRY"
| "get_unit_type FootArcher = FOOT_ARCHER"
| "get_unit_type CavalryArcher = CAVALRY_ARCHER"

text \<open>\<^verbatim>\<open>get_advantages\<close>, one equation per subclass.\<close>

fun get_advantages :: "UnitClass \<Rightarrow> UnitType list" where
  "get_advantages Militia = [SPEARMEN, LIGHT_CAVALRY]"
| "get_advantages Spearmen = [LIGHT_CAVALRY, HEAVY_CAVALRY]"
| "get_advantages LightCavalry = [FOOT_ARCHER, CAVALRY_ARCHER]"
| "get_advantages HeavyCavalry = [MILITIA, FOOT_ARCHER, LIGHT_CAVALRY]"
| "get_advantages FootArcher = [MILITIA, CAVALRY_ARCHER]"
| "get_advantages CavalryArcher = [SPEARMEN, HEAVY_CAVALRY]"

text \<open>
  A \<^verbatim>\<open>Unit\<close> object: its class and the two attributes \<^verbatim>\<open>_count\<close> and
  \<^verbatim>\<open>_unit_type\<close> that \<^verbatim>\<open>__init__\<close> stores. The attribute \<^verbatim>\<open>count\<close> is named
  \<open>unit_count\<close> here, since \<open>count\<close> is the multiplicity function of multisets.
\<close>

record Unit =
  unit_class :: UnitClass
  unit_count :: int
  unit_type :: UnitType

text \<open>\<^verbatim>\<open>Unit.__init__\<close>, run by the constructor of the subclass \<open>k\<close>: the count is stored as given.\<close>

definition Unit_init :: "UnitClass \<Rightarrow> int \<Rightarrow> Unit" where
  "Unit_init k c = \<lparr>unit_class = k, unit_count = c, unit_type = get_unit_type k\<rparr>"

definition has_advantage_over :: "Unit \<Rightarrow> Unit \<Rightarrow> bool" where
  "has_advantage_over u other_unit \<longleftrightarrow> unit_type other_unit \<in> set (get_advantages (unit_class u))"

subsection \<open>The factory\<close>

text \<open>The class attribute \<^verbatim>\<open>UnitFactory._unit_classes\<close>, a dictionary.\<close>

definition unit_classes :: "UnitType \<rightharpoonup> UnitClass" where
  "unit_classes = map_of
     [(MILITIA, Militia), (SPEARMEN, Spearmen), (LIGHT_CAVALRY, LightCavalry),
      (HEAVY_CAVALRY, HeavyCavalry), (FOOT_ARCHER, FootArcher), (CAVALRY_ARCHER, CavalryArcher)]"

text \<open>What \<^verbatim>\<open>str\<close> gives for a member of the enumeration, as the f-string of the error message formats it.\<close>

fun UnitType_str :: "UnitType \<Rightarrow> string" where
  "UnitType_str MILITIA = ''UnitType.MILITIA''"
| "UnitType_str SPEARMEN = ''UnitType.SPEARMEN''"
| "UnitType_str LIGHT_CAVALRY = ''UnitType.LIGHT_CAVALRY''"
| "UnitType_str HEAVY_CAVALRY = ''UnitType.HEAVY_CAVALRY''"
| "UnitType_str FOOT_ARCHER = ''UnitType.FOOT_ARCHER''"
| "UnitType_str CAVALRY_ARCHER = ''UnitType.CAVALRY_ARCHER''"

definition create_unit :: "UnitType \<Rightarrow> int \<Rightarrow> error + Unit" where
  "create_unit t c =
     (case unit_classes t of
        None \<Rightarrow> Inl (ValueError (''Unknown unit type: '' @ UnitType_str t))
      | Some k \<Rightarrow> Inr (Unit_init k c))"

subsection \<open>Battles\<close>

definition ADVANTAGE_MULTIPLIER :: int where
  "ADVANTAGE_MULTIPLIER = 2"

text \<open>\<^verbatim>\<open>Battle._get_effective_count\<close>; Python's \<^verbatim>\<open>//\<close> is floor division, as \<open>div\<close> on \<^typ>\<open>int\<close> is.\<close>

definition get_effective_count :: "Unit \<Rightarrow> Unit \<Rightarrow> int" where
  "get_effective_count att dfn =
     (if has_advantage_over att dfn then unit_count att * ADVANTAGE_MULTIPLIER
      else if has_advantage_over dfn att then unit_count att div ADVANTAGE_MULTIPLIER
      else unit_count att)"

text \<open>\<^verbatim>\<open>Battle._calculate_outcome\<close>.\<close>

definition calculate_outcome :: "Unit \<Rightarrow> Unit \<Rightarrow> BattleOutcome" where
  "calculate_outcome att dfn =
     (let effective_attacker_count = get_effective_count att dfn;
          defender_count = unit_count dfn
      in if effective_attacker_count > defender_count then WIN
         else if effective_attacker_count = defender_count then DRAW
         else LOSS)"

record Battle =
  attacker :: Unit
  defender :: Unit
  outcome :: BattleOutcome

definition Battle_init :: "Unit \<Rightarrow> Unit \<Rightarrow> Battle" where
  "Battle_init att dfn = \<lparr>attacker = att, defender = dfn, outcome = calculate_outcome att dfn\<rparr>"

subsection \<open>Armies\<close>

record Army =
  platoons :: "Unit list"

definition Army_init :: "Unit list \<Rightarrow> Army" where
  "Army_init ps = \<lparr>platoons = ps\<rparr>"

definition get_platoon_count :: "Army \<Rightarrow> nat" where
  "get_platoon_count a = length (platoons a)"

subsection \<open>The permutations of a sequence\<close>

text \<open>
  \<^verbatim>\<open>itertools.permutations(pool)\<close> yields the orderings of the pool's positions in
  lexicographic order of the positions, whatever the values at them. \<open>selections\<close> lists, for
  each position from left to right, the element there with the remaining elements in their
  order; \<open>permutations_of_length r\<close> lists the sequences of \<open>r\<close> elements taken from distinct
  positions, and the library's default is \<open>r\<close> the length of the pool.
\<close>

fun selections :: "'a list \<Rightarrow> ('a \<times> 'a list) list" where
  "selections [] = []"
| "selections (x # xs) = (x, xs) # map (\<lambda>(y, ys). (y, x # ys)) (selections xs)"

fun permutations_of_length :: "nat \<Rightarrow> 'a list \<Rightarrow> 'a list list" where
  "permutations_of_length 0 pool = [[]]"
| "permutations_of_length (Suc r) pool =
     concat (map (\<lambda>(x, rest). map ((#) x) (permutations_of_length r rest)) (selections pool))"

definition permutations :: "'a list \<Rightarrow> 'a list list" where
  "permutations pool = permutations_of_length (length pool) pool"

subsection \<open>The simulation\<close>

definition REQUIRED_WINS :: int where
  "REQUIRED_WINS = 3"

record WarSimulation =
  attacking_army :: Army
  defending_army :: Army

definition validate_armies :: "WarSimulation \<Rightarrow> error + unit" where
  "validate_armies s =
     (if get_platoon_count (attacking_army s) \<noteq> get_platoon_count (defending_army s)
      then Inl (ValueError ''Armies must have the same number of platoons'')
      else Inr ())"

text \<open>\<^verbatim>\<open>WarSimulation.__init__\<close>: the object exists only if the validation does not raise.\<close>

definition WarSimulation_init :: "Army \<Rightarrow> Army \<Rightarrow> error + WarSimulation" where
  "WarSimulation_init att dfn =
     (let s = \<lparr>attacking_army = att, defending_army = dfn\<rparr>
      in case validate_armies s of Inl e \<Rightarrow> Inl e | Inr _ \<Rightarrow> Inr s)"

text \<open>\<^verbatim>\<open>zip\<close> stops at the shorter of the two lists.\<close>

definition simulate_battles :: "Unit list \<Rightarrow> Unit list \<Rightarrow> Battle list" where
  "simulate_battles attacking_platoons defending_platoons =
     map (\<lambda>(a, d). Battle_init a d) (zip attacking_platoons defending_platoons)"

definition is_winning_arrangement :: "Battle list \<Rightarrow> bool" where
  "is_winning_arrangement battles \<longleftrightarrow>
     (let wins = sum_list (map (\<lambda>battle. (1::int)) (filter (\<lambda>battle. outcome battle = WIN) battles))
      in wins \<ge> REQUIRED_WINS)"

text \<open>
  The loop of \<^verbatim>\<open>find_winning_arrangement\<close> over the arrangements still to come: it returns
  at the first winning one and falls through to \<^verbatim>\<open>None\<close> when none is left.
\<close>

fun search_arrangements :: "Unit list \<Rightarrow> Unit list list \<Rightarrow> Army option" where
  "search_arrangements defending_platoons [] = None"
| "search_arrangements defending_platoons (arrangement # rest) =
     (if is_winning_arrangement (simulate_battles arrangement defending_platoons)
      then Some (Army_init arrangement)
      else search_arrangements defending_platoons rest)"

definition find_winning_arrangement :: "WarSimulation \<Rightarrow> Army option" where
  "find_winning_arrangement s =
     search_arrangements (platoons (defending_army s)) (permutations (platoons (attacking_army s)))"

definition get_battle_report :: "WarSimulation \<Rightarrow> Army \<Rightarrow> Battle list" where
  "get_battle_report s army_arrangement =
     simulate_battles (platoons army_arrangement) (platoons (defending_army s))"

text \<open>
  The two steps of \<^verbatim>\<open>solve_war_scenario\<close> on parsed armies: construct the simulation, then
  search. A raised error and the search's \<^verbatim>\<open>None\<close> are different values of the result.
\<close>

definition run_simulation :: "Army \<Rightarrow> Army \<Rightarrow> error + Army option" where
  "run_simulation att dfn =
     (case WarSimulation_init att dfn of
        Inl e \<Rightarrow> Inl e
      | Inr simulation \<Rightarrow> Inr (find_winning_arrangement simulation))"

subsection \<open>Notation and the sample scenario\<close>

text \<open>
  The number of \<open>WIN\<close> outcomes when the platoons \<open>ps\<close> are paired position by
  position with the defending platoons \<open>ds\<close>.
\<close>

abbreviation wins_count :: "Unit list \<Rightarrow> Unit list \<Rightarrow> nat" where
  "wins_count ps ds \<equiv> length (filter (\<lambda>(a, d). calculate_outcome a d = WIN) (zip ps ds))"

text \<open>
  The two armies of \<^verbatim>\<open>run_sample_test\<close>, as \<^verbatim>\<open>parse_army\<close> builds them through
  the factory from \<^verbatim>\<open>Spearmen#10;Militia#30;FootArcher#20;LightCavalry#1000;HeavyCavalry#120\<close>
  and \<^verbatim>\<open>Militia#10;Spearmen#10;FootArcher#1000;LightCavalry#120;CavalryArcher#100\<close>.
\<close>

definition sample_attacking_army :: Army where
  "sample_attacking_army = Army_init
     [Unit_init Spearmen 10, Unit_init Militia 30, Unit_init FootArcher 20,
      Unit_init LightCavalry 1000, Unit_init HeavyCavalry 120]"

definition sample_defending_army :: Army where
  "sample_defending_army = Army_init
     [Unit_init Militia 10, Unit_init Spearmen 10, Unit_init FootArcher 1000,
      Unit_init LightCavalry 120, Unit_init CavalryArcher 100]"

section \<open>Units and battles\<close>

text \<open>
  The factory finds a class for every member of the enumeration, so it never raises, and the
  unit it returns has the kind and the count it was given.
\<close>

lemma create_unit_eq: "create_unit t c = Inr (Unit_init (the (unit_classes t)) c)"
  by (cases t) (simp_all add: create_unit_def unit_classes_def)

lemma create_unit_type: "create_unit t c = Inr u \<Longrightarrow> unit_type u = t \<and> unit_count u = c"
  by (cases t) (auto simp add: create_unit_def unit_classes_def Unit_init_def)

lemma has_advantage_over_asym:
  "create_unit a c1 = Inr u \<Longrightarrow> create_unit b c2 = Inr v \<Longrightarrow> has_advantage_over u v \<Longrightarrow>
   \<not> has_advantage_over v u"
  by (cases a; cases b)
     (auto simp add: create_unit_def unit_classes_def Unit_init_def has_advantage_over_def)

lemma outcome_Battle_init:
  "outcome (Battle_init a d) =
     (if get_effective_count a d > unit_count d then WIN
      else if get_effective_count a d = unit_count d then DRAW else LOSS)"
  by (simp add: Battle_init_def calculate_outcome_def Let_def)

section \<open>The enumeration of permutations\<close>

text \<open>
  Each selection removes one element: the rest is one shorter and keeps the other elements in
  their order.
\<close>

lemma selections_mset:
  "(x, rest) \<in> set (selections xs) \<Longrightarrow> mset xs = add_mset x (mset rest)"
  by (induction xs arbitrary: x rest) auto

lemma selections_length:
  "(x, rest) \<in> set (selections xs) \<Longrightarrow> length xs = Suc (length rest)"
  by (induction xs arbitrary: x rest) auto

lemma length_selections: "length (selections xs) = length xs"
  by (induction xs) simp_all

lemma selections_complete:
  "x \<in> set xs \<Longrightarrow> \<exists>rest. (x, rest) \<in> set (selections xs)"
  by (induction xs) force+

lemma selections_subset:
  "(x, rest) \<in> set (selections xs) \<Longrightarrow> set rest \<subseteq> set xs"
  by (induction xs arbitrary: x rest) fastforce+

lemma map_fst_selections: "map fst (selections xs) = xs"
proof (induction xs)
  case Nil
  show ?case by simp
next
  case (Cons a xs)
  have "map (fst \<circ> (\<lambda>(y, ys). (y, a # ys))) (selections xs) = map fst (selections xs)"
    by (rule map_cong) auto
  with Cons show ?case by simp
qed

lemma selections_map:
  "selections (map f xs) = map (\<lambda>(y, ys). (f y, map f ys)) (selections xs)"
  by (induction xs) (auto simp add: case_prod_beta)

lemma selections_sorted:
  "(x, rest) \<in> set (selections xs) \<Longrightarrow> sorted_wrt R xs \<Longrightarrow> sorted_wrt R rest"
proof (induction xs arbitrary: x rest)
  case Nil
  then show ?case by simp
next
  case (Cons a xs)
  from Cons.prems(1) consider "x = a" "rest = xs"
    | ys where "rest = a # ys" "(x, ys) \<in> set (selections xs)" by auto
  then show ?case
  proof cases
    case 1
    with Cons.prems show ?thesis by simp
  next
    case 2
    from 2(2) have "set ys \<subseteq> set xs" by (rule selections_subset)
    with 2 Cons.prems(2) Cons.IH [OF 2(2)] show ?thesis by auto
  qed
qed

text \<open>
  Every enumerated sequence is a rearrangement of the pool, every rearrangement is enumerated,
  and there are \<open>n!\<close> of them for a pool of \<open>n\<close> elements.
\<close>

lemma permutations_of_length_mset:
  "ys \<in> set (permutations_of_length r pool) \<Longrightarrow> length ys = r \<and> mset ys \<subseteq># mset pool"
proof (induction r arbitrary: ys pool)
  case 0
  then show ?case by simp
next
  case (Suc r)
  then obtain x rest zs where sel: "(x, rest) \<in> set (selections pool)"
    and zs: "zs \<in> set (permutations_of_length r rest)" and ys: "ys = x # zs"
    by auto
  from Suc.IH [OF zs] have "length zs = r" "mset zs \<subseteq># mset rest" by simp_all
  with selections_mset [OF sel] ys show ?case by simp
qed

lemma permutations_mset:
  assumes "ys \<in> set (permutations pool)"
  shows "mset ys = mset pool"
proof -
  from assms have l: "length ys = length pool" and s: "mset ys \<subseteq># mset pool"
    using permutations_of_length_mset [of ys "length pool" pool] by (simp_all add: permutations_def)
  from l have "size (mset ys) = size (mset pool)" by simp
  with s show ?thesis
    using mset_subset_size subset_mset.less_le by fastforce 
qed

lemma permutations_complete:
  "mset ys = mset pool \<Longrightarrow> ys \<in> set (permutations_of_length (length pool) pool)"
proof (induction ys arbitrary: pool)
  case Nil
  then show ?case by simp
next
  case (Cons y ys)
  from Cons.prems have "y \<in> set pool"
    by (metis list.set_intros(1) mset_eq_setD)
  then obtain rest where sel: "(y, rest) \<in> set (selections pool)"
    using selections_complete by fastforce
  from selections_mset [OF sel] Cons.prems have "mset ys = mset rest" by simp
  from Cons.IH [OF this] have "ys \<in> set (permutations_of_length (length rest) rest)" .
  with sel selections_length [OF sel] show ?case by force
qed

lemma set_permutations: "set (permutations pool) = {ys. mset ys = mset pool}"
proof (intro set_eqI iffI)
  fix ys assume "ys \<in> set (permutations pool)"
  then show "ys \<in> {ys. mset ys = mset pool}" by (simp add: permutations_mset)
next
  fix ys assume "ys \<in> {ys. mset ys = mset pool}"
  then show "ys \<in> set (permutations pool)" by (simp add: permutations_def permutations_complete)
qed

lemma length_permutations_of_length:
  "length pool = n \<Longrightarrow> length (permutations_of_length n pool) = fact n"
proof (induction n arbitrary: pool)
  case 0
  then show ?case by simp
next
  case (Suc n)
  have e: "map (\<lambda>p. length (case p of (x, rest) \<Rightarrow> map ((#) x) (permutations_of_length n rest)))
          (selections pool) = map (\<lambda>p. fact n) (selections pool)"
  proof (rule map_cong [OF refl])
    fix p assume p: "p \<in> set (selections pool)"
    obtain x rest where [simp]: "p = (x, rest)" by (cases p)
    from p Suc.prems have "length rest = n" by (auto dest: selections_length)
    then show "length (case p of (x, rest) \<Rightarrow> map ((#) x) (permutations_of_length n rest)) = fact n"
      by (simp add: Suc.IH)
  qed
  have "length (permutations_of_length (Suc n) pool) =
      sum_list (map (\<lambda>p. length (case p of (x, rest) \<Rightarrow> map ((#) x) (permutations_of_length n rest)))
          (selections pool))"
    by (simp add: length_concat comp_def)
  also have "\<dots> = sum_list (map (\<lambda>p. fact n) (selections pool))"
    by (simp only: e)
  also have "\<dots> = fact (Suc n)"
    by (simp add: sum_list_triv length_selections Suc.prems)
  finally show ?case .
qed

lemma length_permutations: "length (permutations pool) = fact (length pool)"
  by (simp add: permutations_def length_permutations_of_length)

text \<open>
  The enumeration depends on positions only, and the orderings of the positions come out in
  strictly increasing lexicographic order.
\<close>

lemma permutations_of_length_map:
  "permutations_of_length r (map f xs) = map (map f) (permutations_of_length r xs)"
  by (induction r arbitrary: xs) (simp_all add: selections_map map_concat case_prod_beta comp_def)

lemma permutations_by_position:
  "permutations pool = map (map ((!) pool)) (permutations [0..<length pool])"
proof -
  have "permutations_of_length (length pool) (map ((!) pool) [0..<length pool]) =
        map (map ((!) pool)) (permutations_of_length (length pool) [0..<length pool])"
    by (rule permutations_of_length_map)
  then show ?thesis by (simp add: permutations_def map_nth)
qed

lemma sorted_wrt_concat_map:
  "sorted_wrt (\<lambda>p q. \<forall>a\<in>set (f p). \<forall>b\<in>set (f q). R a b) ps \<Longrightarrow>
   (\<forall>p\<in>set ps. sorted_wrt R (f p)) \<Longrightarrow> sorted_wrt R (concat (map f ps))"
  by (induction ps) (auto simp add: sorted_wrt_append)

lemma permutations_of_length_sorted:
  "sorted_wrt (<) (pool :: nat list) \<Longrightarrow> sorted_wrt (<) (permutations_of_length r pool)"
proof (induction r arbitrary: pool)
  case 0
  then show ?case by simp
next
  case (Suc r)
  let ?f = "\<lambda>(x, rest). map ((#) x) (permutations_of_length r rest)"
  have "sorted_wrt (\<lambda>p q. fst p < fst q) (selections pool)"
    using Suc.prems sorted_wrt_map [of "(<)" fst "selections pool"] by (simp add: map_fst_selections)
  then have 1: "sorted_wrt (\<lambda>p q. \<forall>a\<in>set (?f p). \<forall>b\<in>set (?f q). a < b) (selections pool)"
    by (rule sorted_wrt_mono_rel [rotated]) (auto simp add: list_less_def)
  have 2: "\<forall>p\<in>set (selections pool). sorted_wrt (<) (?f p)"
  proof
    fix p assume p: "p \<in> set (selections pool)"
    obtain x rest where [simp]: "p = (x, rest)" by (cases p)
    from p Suc.prems have "sorted_wrt (<) rest" using selections_sorted by fastforce
    from Suc.IH [OF this] show "sorted_wrt (<) (?f p)"
      by (simp add: sorted_wrt_map list_less_def)
  qed
  from sorted_wrt_concat_map [of ?f "(<)", OF 1 2] show ?case by simp
qed

lemma permutations_positions_sorted: "sorted_wrt (<) (permutations [0..<n])"
  unfolding permutations_def by (rule permutations_of_length_sorted) simp

section \<open>The search loop\<close>

lemma platoons_Army_init: "platoons (Army_init ps) = ps"
  by (simp add: Army_init_def)

lemma filter_WIN_battles:
  "filter (\<lambda>battle. outcome battle = WIN) (map (\<lambda>(a, d). Battle_init a d) zs)
     = map (\<lambda>(a, d). Battle_init a d) (filter (\<lambda>(a, d). calculate_outcome a d = WIN) zs)"
  by (induction zs) (auto simp add: Battle_init_def)

lemma sum_list_ones: "sum_list (map (\<lambda>x. (1::int)) xs) = int (length xs)"
  by (induction xs) simp_all

lemma is_winning_arrangement_length:
  "is_winning_arrangement battles \<longleftrightarrow> 3 \<le> length (filter (\<lambda>battle. outcome battle = WIN) battles)"
  unfolding is_winning_arrangement_def Let_def REQUIRED_WINS_def sum_list_ones by linarith

lemma is_winning_arrangement_iff:
  "is_winning_arrangement (simulate_battles ps ds) \<longleftrightarrow> 3 \<le> wins_count ps ds"
  unfolding is_winning_arrangement_length simulate_battles_def filter_WIN_battles by simp

lemma wins_count_le: "wins_count p ds \<le> length ds"
proof -
  have "wins_count p ds \<le> length (zip p ds)" by (rule length_filter_le)
  then show ?thesis by simp
qed

lemma search_arrangements_None:
  "search_arrangements ds ps = None \<longleftrightarrow>
   (\<forall>p\<in>set ps. \<not> is_winning_arrangement (simulate_battles p ds))"
  by (induction ps) auto

lemma search_arrangements_Some:
  "search_arrangements ds ps = Some army \<Longrightarrow>
   \<exists>pre p post. ps = pre @ p # post \<and>
     (\<forall>q\<in>set pre. \<not> is_winning_arrangement (simulate_battles q ds)) \<and>
     is_winning_arrangement (simulate_battles p ds) \<and> army = Army_init p"
proof (induction ps)
  case Nil
  then show ?case by simp
next
  case (Cons a ps)
  show ?case
  proof (cases "is_winning_arrangement (simulate_battles a ds)")
    case True
    with Cons.prems have "army = Army_init a" by simp
    with True have "a # ps = [] @ a # ps \<and>
      (\<forall>q\<in>set []. \<not> is_winning_arrangement (simulate_battles q ds)) \<and>
      is_winning_arrangement (simulate_battles a ds) \<and> army = Army_init a" by simp
    then show ?thesis by blast
  next
    case False
    with Cons.prems have "search_arrangements ds ps = Some army" by simp
    from Cons.IH [OF this] obtain pre p post where
      "ps = pre @ p # post" "\<forall>q\<in>set pre. \<not> is_winning_arrangement (simulate_battles q ds)"
      "is_winning_arrangement (simulate_battles p ds)" "army = Army_init p" by blast
    with False have "a # ps = (a # pre) @ p # post \<and>
      (\<forall>q\<in>set (a # pre). \<not> is_winning_arrangement (simulate_battles q ds)) \<and>
      is_winning_arrangement (simulate_battles p ds) \<and> army = Army_init p" by simp
    then show ?thesis by blast
  qed
qed

lemma WarSimulation_init_Inr:
  "WarSimulation_init att dfn = Inr s \<Longrightarrow>
   s = \<lparr>attacking_army = att, defending_army = dfn\<rparr> \<and> length (platoons att) = length (platoons dfn)"
  by (auto simp add: WarSimulation_init_def validate_armies_def get_platoon_count_def Let_def
      split: if_splits)

lemma find_winning_arrangement_None:
  "find_winning_arrangement s = None \<longleftrightarrow>
   (\<forall>p\<in>set (permutations (platoons (attacking_army s))).
      wins_count p (platoons (defending_army s)) < 3)"
  by (auto simp add: find_winning_arrangement_def search_arrangements_None
      is_winning_arrangement_iff not_le)

lemma find_winning_arrangement_Some:
  assumes "find_winning_arrangement s = Some army"
  shows "\<exists>pre post. permutations (platoons (attacking_army s)) = pre @ platoons army # post \<and>
     (\<forall>q\<in>set pre. wins_count q (platoons (defending_army s)) < 3) \<and>
     3 \<le> wins_count (platoons army) (platoons (defending_army s))"
proof -
  from assms obtain pre p post where
    "permutations (platoons (attacking_army s)) = pre @ p # post"
    "\<forall>q\<in>set pre. \<not> is_winning_arrangement (simulate_battles q (platoons (defending_army s)))"
    "is_winning_arrangement (simulate_battles p (platoons (defending_army s)))"
    "army = Army_init p"
    unfolding find_winning_arrangement_def by (blast dest: search_arrangements_Some)
  then have "permutations (platoons (attacking_army s)) = pre @ platoons army # post \<and>
     (\<forall>q\<in>set pre. wins_count q (platoons (defending_army s)) < 3) \<and>
     3 \<le> wins_count (platoons army) (platoons (defending_army s))"
    by (simp add: is_winning_arrangement_iff not_le Army_init_def)
  then show ?thesis by blast
qed

text \<open>
  The sample scenario: the armies have five platoons each, and the second arrangement of the
  enumeration is the first with three wins.
\<close>

lemma sample_init:
  "WarSimulation_init sample_attacking_army sample_defending_army =
     Inr \<lparr>attacking_army = sample_attacking_army, defending_army = sample_defending_army\<rparr>"
  by (simp add: WarSimulation_init_def validate_armies_def get_platoon_count_def
      sample_attacking_army_def sample_defending_army_def Army_init_def)

lemma sample_find:
  "find_winning_arrangement
     \<lparr>attacking_army = sample_attacking_army, defending_army = sample_defending_army\<rparr> =
   Some (Army_init [Unit_init Spearmen 10, Unit_init Militia 30, Unit_init FootArcher 20,
      Unit_init HeavyCavalry 120, Unit_init LightCavalry 1000])"
  by code_simp

section \<open>The claims\<close>

text \<open>
  C1: for an attacker of kind \<open>k1\<close> with count \<open>c1\<close> and a defender of kind \<open>k2\<close> with
  count \<open>c2\<close>, both counts non-negative, the battle's outcome is computed from the effective
  attacker count: \<open>c1 * 2\<close> if the attacker has the advantage over the defender, \<open>c1\<close>
  floor-divided by 2 if the defender has the advantage over the attacker, and \<open>c1\<close> otherwise;
  the outcome is \<open>WIN\<close> if the effective count is greater than \<open>c2\<close>, \<open>DRAW\<close> if equal and
  \<open>LOSS\<close> if less.
\<close>

theorem battle_outcome:
  assumes "create_unit k1 c1 = Inr a" and "create_unit k2 c2 = Inr d"
    and "0 \<le> c1" and "0 \<le> c2"
  shows "outcome (Battle_init a d) =
     (let effective = (if has_advantage_over a d then c1 * 2
                       else if has_advantage_over d a then c1 div 2
                       else c1)
      in if effective > c2 then WIN else if effective = c2 then DRAW else LOSS)"
proof -
  from assms(1) have a: "unit_count a = c1" by (simp add: create_unit_type)
  from assms(2) have d: "unit_count d = c2" by (simp add: create_unit_type)
  show ?thesis
    unfolding outcome_Battle_init get_effective_count_def ADVANTAGE_MULTIPLIER_def a d Let_def
    by simp
qed

text \<open>
  The battles of \<^verbatim>\<open>run_unit_tests\<close> and of its converse: 30 militia against 10 spearmen win
  with 60 against 10, and 10 spearmen against 30 militia lose with 5 against 30.
\<close>

theorem battle_outcome_witness:
  "create_unit MILITIA 30 = Inr (Unit_init Militia 30) \<and>
   create_unit SPEARMEN 10 = Inr (Unit_init Spearmen 10) \<and> (0::int) \<le> 30 \<and> (0::int) \<le> 10 \<and>
   outcome (Battle_init (Unit_init Militia 30) (Unit_init Spearmen 10)) = WIN \<and>
   outcome (Battle_init (Unit_init Spearmen 10) (Unit_init Militia 30)) = LOSS"
proof -
  have a: "create_unit MILITIA 30 = Inr (Unit_init Militia 30)"
    by (simp add: create_unit_def unit_classes_def)
  have b: "create_unit SPEARMEN 10 = Inr (Unit_init Spearmen 10)"
    by (simp add: create_unit_def unit_classes_def)
  have 1: "outcome (Battle_init (Unit_init Militia 30) (Unit_init Spearmen 10)) = WIN"
    using battle_outcome [OF a b] by (simp add: has_advantage_over_def Unit_init_def)
  have 2: "outcome (Battle_init (Unit_init Spearmen 10) (Unit_init Militia 30)) = LOSS"
    using battle_outcome [OF b a] by (simp add: has_advantage_over_def Unit_init_def)
  from a b 1 2 show ?thesis by simp
qed

text \<open>
  C2: on two armies of equal length the search returns a value, \<open>None\<close> or an army: the result
  type has no error summand and every function of the search is total. The loop runs over the
  \<open>n!\<close> arrangements of the \<open>n\<close> attacking platoons. A returned army is a rearrangement of
  the attacking platoons and wins at least 3 of the battles against the defending platoons
  in their fixed order.
\<close>

theorem find_winning_arrangement_sound:
  assumes "WarSimulation_init att dfn = Inr s"
  shows "length (permutations (platoons att)) = fact (length (platoons att)) \<and>
     (find_winning_arrangement s = None \<or>
      (\<exists>army. find_winning_arrangement s = Some army \<and>
         mset (platoons army) = mset (platoons att) \<and>
         3 \<le> wins_count (platoons army) (platoons dfn)))"
proof -
  have "find_winning_arrangement s = None \<or>
      (\<exists>army. find_winning_arrangement s = Some army \<and>
         mset (platoons army) = mset (platoons att) \<and>
         3 \<le> wins_count (platoons army) (platoons dfn))"
  proof (cases "find_winning_arrangement s")
    case None
    then show ?thesis by simp
  next
    case (Some army)
    from assms have s: "attacking_army s = att" "defending_army s = dfn"
      by (auto dest: WarSimulation_init_Inr)
    from find_winning_arrangement_Some [OF Some] obtain pre post where
      p: "permutations (platoons att) = pre @ platoons army # post"
      and w: "3 \<le> wins_count (platoons army) (platoons dfn)"
      unfolding s by blast
    from p have "platoons army \<in> set (permutations (platoons att))" by simp
    then have "mset (platoons army) = mset (platoons att)" by (rule permutations_mset)
    with Some w show ?thesis by simp
  qed
  with length_permutations [of "platoons att"] show ?thesis by (rule conjI)
qed

text \<open>
  On the sample scenario the search returns the arrangement that puts the heavy cavalry
  fourth and the light cavalry last.
\<close>

theorem find_winning_arrangement_sound_witness:
  "WarSimulation_init sample_attacking_army sample_defending_army =
     Inr \<lparr>attacking_army = sample_attacking_army, defending_army = sample_defending_army\<rparr> \<and>
   find_winning_arrangement
     \<lparr>attacking_army = sample_attacking_army, defending_army = sample_defending_army\<rparr> =
   Some (Army_init [Unit_init Spearmen 10, Unit_init Militia 30, Unit_init FootArcher 20,
      Unit_init HeavyCavalry 120, Unit_init LightCavalry 1000]) \<and>
   mset [Unit_init Spearmen 10, Unit_init Militia 30, Unit_init FootArcher 20,
      Unit_init HeavyCavalry 120, Unit_init LightCavalry 1000] = mset (platoons sample_attacking_army) \<and>
   3 \<le> wins_count [Unit_init Spearmen 10, Unit_init Militia 30, Unit_init FootArcher 20,
      Unit_init HeavyCavalry 120, Unit_init LightCavalry 1000] (platoons sample_defending_army)"
  using find_winning_arrangement_sound [OF sample_init, THEN conjunct2] sample_init
  by (simp add: sample_find Army_init_def)

text \<open>
  C3: the search is exhaustive. If it returns \<open>None\<close> on two armies of equal length, then no
  rearrangement \<open>p\<close> of the attacking platoons wins 3 battles against the defending platoons in
  their fixed order.
\<close>

theorem none_means_no_arrangement:
  assumes "WarSimulation_init att dfn = Inr s" and "find_winning_arrangement s = None"
    and "mset p = mset (platoons att)"
  shows "wins_count p (platoons dfn) < 3"
proof -
  from assms(1) have s: "attacking_army s = att" "defending_army s = dfn"
    by (auto dest: WarSimulation_init_Inr)
  from assms(3) have "p \<in> set (permutations (platoons att))"
    unfolding permutations_def by (rule permutations_complete)
  with assms(2) show ?thesis by (simp add: find_winning_arrangement_None s)
qed

text \<open>
  Three platoons of one soldier each against three platoons of a hundred heavy cavalry: the
  search returns \<open>None\<close>, and the rearrangement that starts with the spearmen wins nothing.
\<close>

theorem none_means_no_arrangement_witness:
  "WarSimulation_init
     (Army_init [Unit_init Militia 1, Unit_init Spearmen 1, Unit_init FootArcher 1])
     (Army_init [Unit_init HeavyCavalry 100, Unit_init HeavyCavalry 100, Unit_init HeavyCavalry 100]) =
   Inr \<lparr>attacking_army = Army_init [Unit_init Militia 1, Unit_init Spearmen 1, Unit_init FootArcher 1],
        defending_army = Army_init [Unit_init HeavyCavalry 100, Unit_init HeavyCavalry 100, Unit_init HeavyCavalry 100]\<rparr> \<and>
   find_winning_arrangement
     \<lparr>attacking_army = Army_init [Unit_init Militia 1, Unit_init Spearmen 1, Unit_init FootArcher 1],
      defending_army = Army_init [Unit_init HeavyCavalry 100, Unit_init HeavyCavalry 100, Unit_init HeavyCavalry 100]\<rparr> = None \<and>
   mset [Unit_init Spearmen 1, Unit_init FootArcher 1, Unit_init Militia 1] =
     mset (platoons (Army_init [Unit_init Militia 1, Unit_init Spearmen 1, Unit_init FootArcher 1])) \<and>
   wins_count [Unit_init Spearmen 1, Unit_init FootArcher 1, Unit_init Militia 1]
     (platoons (Army_init [Unit_init HeavyCavalry 100, Unit_init HeavyCavalry 100, Unit_init HeavyCavalry 100])) < 3"
proof -
  let ?A = "Army_init [Unit_init Militia 1, Unit_init Spearmen 1, Unit_init FootArcher 1]"
  let ?D = "Army_init [Unit_init HeavyCavalry 100, Unit_init HeavyCavalry 100, Unit_init HeavyCavalry 100]"
  have i: "WarSimulation_init ?A ?D = Inr \<lparr>attacking_army = ?A, defending_army = ?D\<rparr>"
    by (simp add: WarSimulation_init_def validate_armies_def get_platoon_count_def Army_init_def)
  have n: "find_winning_arrangement \<lparr>attacking_army = ?A, defending_army = ?D\<rparr> = None"
    by code_simp
  have m: "mset [Unit_init Spearmen 1, Unit_init FootArcher 1, Unit_init Militia 1] = mset (platoons ?A)"
    by (simp add: Army_init_def)
  from none_means_no_arrangement [OF i n m] i n m show ?thesis by simp
qed

text \<open>
  C4: the search returns the first qualifying arrangement of a fixed enumeration. The
  arrangements are the orderings of the positions \<open>0, ..., n - 1\<close> of the attacking platoons,
  all of them, in strictly increasing lexicographic order, each read off the original
  sequence; the result is \<open>None\<close> when no arrangement of the enumeration wins 3 battles, and
  otherwise the arrangement before which the enumeration holds no qualifying one. The search is
  a function of the two armies, so two runs on the same armies give the same arrangement.
\<close>

theorem first_qualifying_arrangement:
  assumes "WarSimulation_init att dfn = Inr s"
  shows "sorted_wrt (<) (permutations [0..<length (platoons att)]) \<and>
     set (permutations [0..<length (platoons att)]) =
       {js. mset js = mset [0..<length (platoons att)]} \<and>
     permutations (platoons att) =
       map (map ((!) (platoons att))) (permutations [0..<length (platoons att)]) \<and>
     (case find_winning_arrangement s of
        None \<Rightarrow> \<forall>p\<in>set (permutations (platoons att)). wins_count p (platoons dfn) < 3
      | Some army \<Rightarrow>
          \<exists>pre post. permutations (platoons att) = pre @ platoons army # post \<and>
            (\<forall>q\<in>set pre. wins_count q (platoons dfn) < 3) \<and>
            3 \<le> wins_count (platoons army) (platoons dfn))"
proof -
  from assms have s: "attacking_army s = att" "defending_army s = dfn"
    by (auto dest: WarSimulation_init_Inr)
  have c: "case find_winning_arrangement s of
        None \<Rightarrow> \<forall>p\<in>set (permutations (platoons att)). wins_count p (platoons dfn) < 3
      | Some army \<Rightarrow>
          \<exists>pre post. permutations (platoons att) = pre @ platoons army # post \<and>
            (\<forall>q\<in>set pre. wins_count q (platoons dfn) < 3) \<and>
            3 \<le> wins_count (platoons army) (platoons dfn)"
  proof (cases "find_winning_arrangement s")
    case None
    then show ?thesis using find_winning_arrangement_None [of s] by (simp add: s)
  next
    case (Some army)
    then show ?thesis using find_winning_arrangement_Some [of s army] by (simp add: s)
  qed
  show ?thesis
    by (intro conjI permutations_positions_sorted set_permutations permutations_by_position c)
qed

text \<open>
  On the sample scenario the arrangement returned is the second of the enumeration; the
  first, the attacking army as given, wins two battles only.
\<close>

theorem first_qualifying_arrangement_witness:
  "WarSimulation_init sample_attacking_army sample_defending_army =
     Inr \<lparr>attacking_army = sample_attacking_army, defending_army = sample_defending_army\<rparr> \<and>
   find_winning_arrangement
     \<lparr>attacking_army = sample_attacking_army, defending_army = sample_defending_army\<rparr> =
   Some (Army_init [Unit_init Spearmen 10, Unit_init Militia 30, Unit_init FootArcher 20,
      Unit_init HeavyCavalry 120, Unit_init LightCavalry 1000]) \<and>
   (\<exists>pre post. permutations (platoons sample_attacking_army) =
       pre @ [Unit_init Spearmen 10, Unit_init Militia 30, Unit_init FootArcher 20,
              Unit_init HeavyCavalry 120, Unit_init LightCavalry 1000] # post \<and>
     (\<forall>q\<in>set pre. wins_count q (platoons sample_defending_army) < 3) \<and>
     3 \<le> wins_count [Unit_init Spearmen 10, Unit_init Militia 30, Unit_init FootArcher 20,
              Unit_init HeavyCavalry 120, Unit_init LightCavalry 1000] (platoons sample_defending_army))"
proof -
  note first_qualifying_arrangement [OF sample_init, THEN conjunct2, THEN conjunct2,
      THEN conjunct2, unfolded sample_find option.case platoons_Army_init]
  with sample_init sample_find show ?thesis by (intro conjI)
qed

text \<open>
  C5: the advantage relation is asymmetric. For the units the factory makes of any two kinds
  \<open>a\<close> and \<open>b\<close>, with any counts, \<open>has_advantage_over\<close> never holds in both directions.
\<close>

theorem advantage_asymmetric:
  "create_unit a c1 = Inr u \<Longrightarrow> create_unit b c2 = Inr v \<Longrightarrow>
   \<not> (has_advantage_over u v \<and> has_advantage_over v u)"
  using has_advantage_over_asym [of a c1 u b c2 v] by blast

theorem advantage_asymmetric_witness:
  "create_unit MILITIA 30 = Inr (Unit_init Militia 30) \<and>
   create_unit SPEARMEN 10 = Inr (Unit_init Spearmen 10) \<and>
   has_advantage_over (Unit_init Militia 30) (Unit_init Spearmen 10) \<and>
   \<not> has_advantage_over (Unit_init Spearmen 10) (Unit_init Militia 30)"
proof -
  have a: "create_unit MILITIA 30 = Inr (Unit_init Militia 30)"
    by (simp add: create_unit_def unit_classes_def)
  have b: "create_unit SPEARMEN 10 = Inr (Unit_init Spearmen 10)"
    by (simp add: create_unit_def unit_classes_def)
  have c: "has_advantage_over (Unit_init Militia 30) (Unit_init Spearmen 10)"
    by (simp add: has_advantage_over_def Unit_init_def)
  from advantage_asymmetric [OF a b] c a b show ?thesis by blast
qed

text \<open>
  C6: when the two armies differ in their number of platoons, constructing the simulation
  raises \<^verbatim>\<open>ValueError\<close>, so that constructing and then searching yields that error and not
  the search's \<open>None\<close>; and \<open>None\<close> is the result only for armies of equal length none of
  whose arrangements wins 3 battles.
\<close>

theorem unequal_platoon_counts_rejected:
  "(get_platoon_count att \<noteq> get_platoon_count dfn \<longrightarrow>
      WarSimulation_init att dfn = Inl (ValueError ''Armies must have the same number of platoons'') \<and>
      run_simulation att dfn = Inl (ValueError ''Armies must have the same number of platoons'') \<and>
      run_simulation att dfn \<noteq> Inr None) \<and>
   (run_simulation att dfn = Inr None \<longrightarrow>
      get_platoon_count att = get_platoon_count dfn \<and>
      (\<forall>p\<in>set (permutations (platoons att)). wins_count p (platoons dfn) < 3))"
proof (cases "get_platoon_count att = get_platoon_count dfn")
  case True
  then have i: "WarSimulation_init att dfn = Inr \<lparr>attacking_army = att, defending_army = dfn\<rparr>"
    by (simp add: WarSimulation_init_def validate_armies_def)
  have "run_simulation att dfn = Inr None \<longrightarrow>
      (\<forall>p\<in>set (permutations (platoons att)). wins_count p (platoons dfn) < 3)"
    unfolding run_simulation_def i by (simp add: find_winning_arrangement_None)
  with True show ?thesis by simp
next
  case False
  then have "WarSimulation_init att dfn = Inl (ValueError ''Armies must have the same number of platoons'')"
    by (simp add: WarSimulation_init_def validate_armies_def)
  with False show ?thesis by (simp add: run_simulation_def)
qed

text \<open>
  Three platoons against two are rejected; two empty armies are searched, with result \<open>None\<close>.
\<close>

theorem unequal_platoon_counts_rejected_witness:
  "get_platoon_count (Army_init [Unit_init Militia 1, Unit_init Militia 1, Unit_init Militia 1]) \<noteq>
     get_platoon_count (Army_init [Unit_init Militia 1, Unit_init Militia 1]) \<and>
   run_simulation (Army_init [Unit_init Militia 1, Unit_init Militia 1, Unit_init Militia 1])
     (Army_init [Unit_init Militia 1, Unit_init Militia 1]) =
     Inl (ValueError ''Armies must have the same number of platoons'') \<and>
   run_simulation (Army_init []) (Army_init []) = Inr None \<and>
   get_platoon_count (Army_init []) = get_platoon_count (Army_init [])"
proof -
  let ?A = "Army_init [Unit_init Militia 1, Unit_init Militia 1, Unit_init Militia 1]"
  let ?D = "Army_init [Unit_init Militia 1, Unit_init Militia 1]"
  have c: "get_platoon_count ?A \<noteq> get_platoon_count ?D"
    by (simp add: get_platoon_count_def Army_init_def)
  have e: "run_simulation (Army_init []) (Army_init []) = Inr None"
    by (simp add: run_simulation_def WarSimulation_init_def validate_armies_def
        find_winning_arrangement_def permutations_def Army_init_def is_winning_arrangement_def
        simulate_battles_def REQUIRED_WINS_def)
  from unequal_platoon_counts_rejected [of ?A ?D]
    unequal_platoon_counts_rejected [of "Army_init []" "Army_init []"] c e
  show ?thesis by simp
qed

text \<open>
  C7, as stated, fails: a defender with count 0 that has the advantage over an attacker with
  count 1 does not lose. The effective attacker count is 1 floor-divided by 2, that is 0, and
  the battle is a draw although the opposing count is 1.
\<close>

theorem zero_count_counterexample:
  "create_unit SPEARMEN 1 = Inr (Unit_init Spearmen 1) \<and>
   create_unit MILITIA 0 = Inr (Unit_init Militia 0) \<and>
   outcome (Battle_init (Unit_init Spearmen 1) (Unit_init Militia 0)) = DRAW"
  by (simp add: create_unit_def unit_classes_def Unit_init_def Battle_init_def
      calculate_outcome_def get_effective_count_def has_advantage_over_def ADVANTAGE_MULTIPLIER_def)

text \<open>
  C7, amended: with non-negative counts, an attacker with count 0 loses against a defender with
  count at least 1 and draws against a defender with count 0, whatever the kinds; a defender
  with count 0 loses (the outcome is \<open>WIN\<close>) against an attacker with count at least 2,
  whatever the kinds; against an attacker with count 1 the outcome is \<open>DRAW\<close> if the defender
  has the advantage over the attacker and \<open>WIN\<close> otherwise.
\<close>

theorem zero_count_outcome:
  assumes "create_unit k1 c1 = Inr a" and "create_unit k2 c2 = Inr d"
    and "0 \<le> c1" and "0 \<le> c2"
  shows "(c1 = 0 \<and> 1 \<le> c2 \<longrightarrow> outcome (Battle_init a d) = LOSS) \<and>
         (c1 = 0 \<and> c2 = 0 \<longrightarrow> outcome (Battle_init a d) = DRAW) \<and>
         (c2 = 0 \<and> 2 \<le> c1 \<longrightarrow> outcome (Battle_init a d) = WIN) \<and>
         (c2 = 0 \<and> c1 = 1 \<longrightarrow>
            outcome (Battle_init a d) = (if has_advantage_over d a then DRAW else WIN))"
proof -
  from assms(1) have a: "unit_count a = c1" by (simp add: create_unit_type)
  from assms(2) have d: "unit_count d = c2" by (simp add: create_unit_type)
  have asym: "has_advantage_over d a \<Longrightarrow> \<not> has_advantage_over a d"
    using has_advantage_over_asym [OF assms(2) assms(1)] by simp
  have 1: "c1 = 0 \<and> 1 \<le> c2 \<longrightarrow> outcome (Battle_init a d) = LOSS"
    unfolding outcome_Battle_init get_effective_count_def ADVANTAGE_MULTIPLIER_def a d by auto
  have 2: "c1 = 0 \<and> c2 = 0 \<longrightarrow> outcome (Battle_init a d) = DRAW"
    unfolding outcome_Battle_init get_effective_count_def ADVANTAGE_MULTIPLIER_def a d by auto
  have 3: "c2 = 0 \<and> 2 \<le> c1 \<longrightarrow> outcome (Battle_init a d) = WIN"
    unfolding outcome_Battle_init get_effective_count_def ADVANTAGE_MULTIPLIER_def a d by auto
  have 4: "c2 = 0 \<and> c1 = 1 \<longrightarrow>
            outcome (Battle_init a d) = (if has_advantage_over d a then DRAW else WIN)"
    unfolding outcome_Battle_init get_effective_count_def ADVANTAGE_MULTIPLIER_def a d
    using asym by auto
  from 1 2 3 4 show ?thesis by blast
qed

theorem zero_count_outcome_witness:
  "create_unit HEAVY_CAVALRY 0 = Inr (Unit_init HeavyCavalry 0) \<and>
   create_unit MILITIA 1 = Inr (Unit_init Militia 1) \<and> (0::int) \<le> 0 \<and> (0::int) \<le> 1 \<and>
   outcome (Battle_init (Unit_init HeavyCavalry 0) (Unit_init Militia 1)) = LOSS \<and>
   outcome (Battle_init (Unit_init Militia 1) (Unit_init HeavyCavalry 0)) = DRAW"
proof -
  have a: "create_unit HEAVY_CAVALRY 0 = Inr (Unit_init HeavyCavalry 0)"
    by (simp add: create_unit_def unit_classes_def)
  have b: "create_unit MILITIA 1 = Inr (Unit_init Militia 1)"
    by (simp add: create_unit_def unit_classes_def)
  have 1: "outcome (Battle_init (Unit_init HeavyCavalry 0) (Unit_init Militia 1)) = LOSS"
    using zero_count_outcome [OF a b] by simp
  have 2: "outcome (Battle_init (Unit_init Militia 1) (Unit_init HeavyCavalry 0)) = DRAW"
    using zero_count_outcome [OF b a] by (simp add: has_advantage_over_def Unit_init_def)
  from a b 1 2 show ?thesis by simp
qed

text \<open>
  C8, as stated, fails: the search returns the army alone. Against the sample defending army
  and against the same army with 20 foot archers in place of 1000 the search returns the same
  value, while the outcomes of the battles differ, so the value returned does not hold them.
\<close>

theorem result_without_outcomes_counterexample:
  "find_winning_arrangement
     \<lparr>attacking_army = sample_attacking_army, defending_army = sample_defending_army\<rparr> =
   Some (Army_init [Unit_init Spearmen 10, Unit_init Militia 30, Unit_init FootArcher 20,
      Unit_init HeavyCavalry 120, Unit_init LightCavalry 1000]) \<and>
   find_winning_arrangement
     \<lparr>attacking_army = sample_attacking_army,
      defending_army = Army_init [Unit_init Militia 10, Unit_init Spearmen 10,
        Unit_init FootArcher 20, Unit_init LightCavalry 120, Unit_init CavalryArcher 100]\<rparr> =
   Some (Army_init [Unit_init Spearmen 10, Unit_init Militia 30, Unit_init FootArcher 20,
      Unit_init HeavyCavalry 120, Unit_init LightCavalry 1000]) \<and>
   map outcome (get_battle_report
     \<lparr>attacking_army = sample_attacking_army, defending_army = sample_defending_army\<rparr>
     (Army_init [Unit_init Spearmen 10, Unit_init Militia 30, Unit_init FootArcher 20,
      Unit_init HeavyCavalry 120, Unit_init LightCavalry 1000])) = [LOSS, WIN, LOSS, WIN, WIN] \<and>
   map outcome (get_battle_report
     \<lparr>attacking_army = sample_attacking_army,
      defending_army = Army_init [Unit_init Militia 10, Unit_init Spearmen 10,
        Unit_init FootArcher 20, Unit_init LightCavalry 120, Unit_init CavalryArcher 100]\<rparr>
     (Army_init [Unit_init Spearmen 10, Unit_init Militia 30, Unit_init FootArcher 20,
      Unit_init HeavyCavalry 120, Unit_init LightCavalry 1000])) = [LOSS, WIN, DRAW, WIN, WIN]"
  by code_simp

text \<open>
  C8, amended: when the search returns an arrangement, the battles of that arrangement are
  obtained by a second call, \<^verbatim>\<open>get_battle_report\<close>, which gives one battle for each
  position, with the outcomes of the arrangement's platoons against the defending platoons in
  order, at least 3 of them \<open>WIN\<close>.
\<close>

theorem battle_report_of_arrangement:
  assumes "WarSimulation_init att dfn = Inr s" and "find_winning_arrangement s = Some army"
  shows "length (get_battle_report s army) = get_platoon_count dfn \<and>
     map outcome (get_battle_report s army) =
       map (\<lambda>(a, d). calculate_outcome a d) (zip (platoons army) (platoons dfn)) \<and>
     3 \<le> length (filter (\<lambda>battle. outcome battle = WIN) (get_battle_report s army))"
proof -
  from assms(1) have s: "attacking_army s = att" "defending_army s = dfn"
    and l: "length (platoons att) = length (platoons dfn)"
    by (auto dest: WarSimulation_init_Inr)
  from find_winning_arrangement_Some [OF assms(2)] obtain pre post where
    p: "permutations (platoons att) = pre @ platoons army # post"
    and w: "3 \<le> wins_count (platoons army) (platoons dfn)"
    unfolding s by blast
  from p have "platoons army \<in> set (permutations (platoons att))" by simp
  then have "mset (platoons army) = mset (platoons att)" by (rule permutations_mset)
  then have "length (platoons army) = length (platoons att)" by (rule mset_eq_length)
  with l have 1: "length (get_battle_report s army) = get_platoon_count dfn"
    by (simp add: get_battle_report_def simulate_battles_def s get_platoon_count_def)
  have 2: "map outcome (get_battle_report s army) =
       map (\<lambda>(a, d). calculate_outcome a d) (zip (platoons army) (platoons dfn))"
    by (simp add: get_battle_report_def simulate_battles_def s Battle_init_def case_prod_beta)
  from w have 3: "3 \<le> length (filter (\<lambda>battle. outcome battle = WIN) (get_battle_report s army))"
    by (simp add: get_battle_report_def simulate_battles_def s filter_WIN_battles)
  from 1 2 3 show ?thesis by simp
qed

theorem battle_report_of_arrangement_witness:
  "WarSimulation_init sample_attacking_army sample_defending_army =
     Inr \<lparr>attacking_army = sample_attacking_army, defending_army = sample_defending_army\<rparr> \<and>
   find_winning_arrangement
     \<lparr>attacking_army = sample_attacking_army, defending_army = sample_defending_army\<rparr> =
   Some (Army_init [Unit_init Spearmen 10, Unit_init Militia 30, Unit_init FootArcher 20,
      Unit_init HeavyCavalry 120, Unit_init LightCavalry 1000]) \<and>
   map outcome (get_battle_report
     \<lparr>attacking_army = sample_attacking_army, defending_army = sample_defending_army\<rparr>
     (Army_init [Unit_init Spearmen 10, Unit_init Militia 30, Unit_init FootArcher 20,
      Unit_init HeavyCavalry 120, Unit_init LightCavalry 1000])) = [LOSS, WIN, LOSS, WIN, WIN]"
proof -
  have "map (\<lambda>(a, d). calculate_outcome a d)
     (zip [Unit_init Spearmen 10, Unit_init Militia 30, Unit_init FootArcher 20,
           Unit_init HeavyCavalry 120, Unit_init LightCavalry 1000] (platoons sample_defending_army)) =
     [LOSS, WIN, LOSS, WIN, WIN]"
    by code_simp
  with battle_report_of_arrangement [OF sample_init sample_find] sample_init sample_find
  show ?thesis by (simp add: Army_init_def)
qed

text \<open>
  C9, as stated, fails: the factory accepts a negative count, and the unit it returns takes
  part in battles; a militia unit of count -5 wins against a militia unit of count -7.
\<close>

theorem negative_count_counterexample:
  "create_unit MILITIA (- 5) = Inr (Unit_init Militia (- 5)) \<and>
   unit_count (Unit_init Militia (- 5)) = - 5 \<and>
   create_unit MILITIA (- 7) = Inr (Unit_init Militia (- 7)) \<and>
   outcome (Battle_init (Unit_init Militia (- 5)) (Unit_init Militia (- 7))) = WIN"
  by (simp add: create_unit_def unit_classes_def Unit_init_def Battle_init_def
      calculate_outcome_def get_effective_count_def has_advantage_over_def)

text \<open>
  C9, amended: the core checks no count. For every kind and every integer count, negative
  ones included, the factory returns a unit of that kind holding that count; and a battle
  between two such units, whatever the signs of their counts, has the outcome that the same
  rule gives: the effective attacker count is \<open>c1 * 2\<close> if the attacker has the advantage,
  \<open>c1\<close> floor-divided by 2 if the defender has it, and \<open>c1\<close> otherwise, and the outcome is
  \<open>WIN\<close>, \<open>DRAW\<close> or \<open>LOSS\<close> as that count is greater than, equal to or less than \<open>c2\<close>.
\<close>

theorem create_unit_any_count:
  "\<exists>u v. create_unit t1 c1 = Inr u \<and> unit_count u = c1 \<and> unit_type u = t1 \<and>
     create_unit t2 c2 = Inr v \<and> unit_count v = c2 \<and> unit_type v = t2 \<and>
     outcome (Battle_init u v) =
       (let effective = (if has_advantage_over u v then c1 * 2
                         else if has_advantage_over v u then c1 div 2
                         else c1)
        in if effective > c2 then WIN else if effective = c2 then DRAW else LOSS)"
proof -
  obtain u where u: "create_unit t1 c1 = Inr u" using create_unit_eq [of t1 c1] by blast
  obtain v where v: "create_unit t2 c2 = Inr v" using create_unit_eq [of t2 c2] by blast
  from u have cu: "unit_count u = c1" and tu: "unit_type u = t1" by (simp_all add: create_unit_type)
  from v have cv: "unit_count v = c2" and tv: "unit_type v = t2" by (simp_all add: create_unit_type)
  have o: "outcome (Battle_init u v) =
       (let effective = (if has_advantage_over u v then c1 * 2
                         else if has_advantage_over v u then c1 div 2
                         else c1)
        in if effective > c2 then WIN else if effective = c2 then DRAW else LOSS)"
    unfolding outcome_Battle_init get_effective_count_def ADVANTAGE_MULTIPLIER_def cu cv Let_def
    by simp
  from u cu tu v cv tv o show ?thesis by blast
qed

text \<open>
  A militia unit of count -5 against a heavy cavalry unit of count -3: the defender has the
  advantage, the effective count is -5 floor-divided by 2, that is -3, and the battle is a draw.
\<close>

theorem create_unit_any_count_witness:
  "create_unit MILITIA (- 5) = Inr (Unit_init Militia (- 5)) \<and>
   create_unit HEAVY_CAVALRY (- 3) = Inr (Unit_init HeavyCavalry (- 3)) \<and>
   outcome (Battle_init (Unit_init Militia (- 5)) (Unit_init HeavyCavalry (- 3))) = DRAW"
proof -
  have a: "create_unit MILITIA (- 5) = Inr (Unit_init Militia (- 5))"
    by (simp add: create_unit_def unit_classes_def)
  have b: "create_unit HEAVY_CAVALRY (- 3) = Inr (Unit_init HeavyCavalry (- 3))"
    by (simp add: create_unit_def unit_classes_def)
  from create_unit_any_count [of MILITIA "- 5" HEAVY_CAVALRY "- 3"]
  have "outcome (Battle_init (Unit_init Militia (- 5)) (Unit_init HeavyCavalry (- 3))) = DRAW"
    unfolding a b by (auto simp add: has_advantage_over_def Unit_init_def Let_def)
  with a b show ?thesis by simp
qed

text \<open>
  C10: two armies of equal length with fewer than 3 platoons each have no winning arrangement:
  the search returns \<open>None\<close>.
\<close>

theorem short_armies_never_win:
  assumes "WarSimulation_init att dfn = Inr s" and "get_platoon_count att < 3"
  shows "find_winning_arrangement s = None"
proof -
  from assms(1) have s: "attacking_army s = att" "defending_army s = dfn"
    and l: "length (platoons att) = length (platoons dfn)"
    by (auto dest: WarSimulation_init_Inr)
  have "wins_count p (platoons dfn) < 3" for p
    using wins_count_le [of p "platoons dfn"] assms(2) l by (simp add: get_platoon_count_def)
  then show ?thesis by (simp add: find_winning_arrangement_None s)
qed

text \<open>
  One platoon each, with count 0, and two empty armies.
\<close>

theorem short_armies_never_win_witness:
  "WarSimulation_init (Army_init [Unit_init Militia 0]) (Army_init [Unit_init Militia 0]) =
     Inr \<lparr>attacking_army = Army_init [Unit_init Militia 0],
          defending_army = Army_init [Unit_init Militia 0]\<rparr> \<and>
   get_platoon_count (Army_init [Unit_init Militia 0]) < 3 \<and>
   find_winning_arrangement \<lparr>attacking_army = Army_init [Unit_init Militia 0],
          defending_army = Army_init [Unit_init Militia 0]\<rparr> = None \<and>
   WarSimulation_init (Army_init []) (Army_init []) =
     Inr \<lparr>attacking_army = Army_init [], defending_army = Army_init []\<rparr> \<and>
   get_platoon_count (Army_init []) < 3 \<and>
   find_winning_arrangement \<lparr>attacking_army = Army_init [], defending_army = Army_init []\<rparr> = None"
proof -
  let ?A = "Army_init [Unit_init Militia 0]"
  have i: "WarSimulation_init ?A ?A = Inr \<lparr>attacking_army = ?A, defending_army = ?A\<rparr>"
    by (simp add: WarSimulation_init_def validate_armies_def)
  have c: "get_platoon_count ?A < 3" by (simp add: get_platoon_count_def Army_init_def)
  have j: "WarSimulation_init (Army_init []) (Army_init []) =
     Inr \<lparr>attacking_army = Army_init [], defending_army = Army_init []\<rparr>"
    by (simp add: WarSimulation_init_def validate_armies_def)
  have d: "get_platoon_count (Army_init []) < 3" by (simp add: get_platoon_count_def Army_init_def)
  from short_armies_never_win [OF i c] short_armies_never_win [OF j d] i c j d
  show ?thesis by simp
qed

end
